theory Spec2Isabelle
  imports Main "HOL-Library.Sublist" "HOL-Library.Code_Target_Numeral"
begin

section \<open>Values of the Go program\<close>

text \<open>
  Go strings and byte slices are sequences of bytes: \<^typ>\<open>string\<close>. A nil slice and an
  empty slice are both \<open>[]\<close> where the program cannot tell them apart; where it can (the
  snapshot of the buffer that \<open>Find\<close> is given, and the result of \<open>Find\<close>), a slice is a
  \<^typ>\<open>string option\<close> and \<open>None\<close> is nil.
  A Go \<open>error\<close> value is an \<open>error option\<close>, \<open>None\<close> being nil.
  A \<open>time.Duration\<close> is a number of nanoseconds.
\<close>

datatype error =
    ErrTimeout              \<comment> \<open>\<open>var ErrTimeout = errors.New("timeout expecting results")\<close>\<close>
  | io_EOF                  \<comment> \<open>\<open>io.EOF\<close>\<close>
  | ErrInvalid              \<comment> \<open>\<open>os.ErrInvalid\<close>, what a nil \<open>*os.File\<close> answers\<close>
  | errFinished             \<comment> \<open>\<open>os: process already finished\<close>\<close>
  | OSError string          \<comment> \<open>an error of the operating system, by its message\<close>
  | Wrapped string error    \<comment> \<open>\<open>errors.Wrap(err, message)\<close> of pkg/errors\<close>

fun Error :: "error \<Rightarrow> string" where
  "Error ErrTimeout = ''timeout expecting results''"
| "Error io_EOF = ''EOF''"
| "Error ErrInvalid = ''invalid argument''"
| "Error errFinished = ''os: process already finished''"
| "Error (OSError m) = m"
| "Error (Wrapped m e) = m @ '': '' @ Error e"

text \<open>\<open>errors.Wrap\<close> returns nil for a nil error.\<close>

fun errors_Wrap :: "error option \<Rightarrow> string \<Rightarrow> error option" where
  "errors_Wrap None message = None"
| "errors_Wrap (Some err) message = Some (Wrapped message err)"

definition Microsecond :: int where
  "Microsecond = 1000"

definition Second :: int where
  "Second = 1000000000"

definition DefaultTimeout :: int where
  "DefaultTimeout = 30 * Second"

section \<open>The session\<close>

text \<open>
  The child process as the operating system keeps it: running, exited but not yet waited
  for (a zombie), or reaped by a wait.
\<close>

datatype proc_state = Alive | Zombie | Reaped

record Process =
  Pid :: nat
  state :: proc_state

text \<open>
  The pty's controlling side as an open \<open>*os.File\<close>: the bytes written to it so far (the
  child's input), and the failure the operating system has in store for writes, if any:
  \<open>Some (n, e)\<close> when it takes \<open>n\<close> more bytes and then fails with \<open>e\<close>.
\<close>

record File =
  written :: string
  fault :: "(nat \<times> error) option"

record Cmd =
  Path :: string
  Args :: "string list"
  Process :: "Process option"

text \<open>
  Modelled from the spec: the type \<open>logger\<close> of the field \<open>log\<close> is declared in no source
  file at hand; the spec calls it an in-memory log, and the code reads it with
  \<open>s.log.log.String()\<close> and writes it with \<open>s.log.Printf\<close>. It is the text of its buffer.
\<close>

type_synonym logger = string

definition logger_Printf :: "logger \<Rightarrow> string \<Rightarrow> logger" where
  "logger_Printf l line = l @ line"

text \<open>
  \<open>type SubProcess struct\<close>. The field \<open>ctx\<close> is \<open>context.Background()\<close>, which is never
  cancelled, and so holds no state.
\<close>

record SubProcess =
  command :: Cmd
  pty :: "File option"
  log :: logger

definition NewSubProcess :: "string \<Rightarrow> string list \<Rightarrow> SubProcess" where
  "NewSubProcess cmd args =
     \<lparr>command = \<lparr>Path = cmd, Args = cmd # args, Process = None\<rparr>, pty = None, log = []\<rparr>"

subsection \<open>Start, Close, Send, SendLine\<close>

text \<open>
  \<open>pty.Start(s.command)\<close> opens a pty and starts the command on it. What the operating
  system answers is the argument \<open>spawn\<close>: an error, or the process id and the open file.
  \<open>exec.Cmd.Start\<close> refuses a command that was started before, and sets the field
  \<open>Process\<close> only when the process exists.
\<close>

definition Start :: "error + nat \<times> File \<Rightarrow> SubProcess \<Rightarrow> SubProcess \<times> error option" where
  "Start spawn s =
     (case Process (command s) of
        Some p \<Rightarrow> (s, Some (OSError ''exec: already started''))
      | None \<Rightarrow>
          (case spawn of
             Inl err \<Rightarrow> (s, Some err)
           | Inr (pid, f) \<Rightarrow>
               (s\<lparr>command := (command s)\<lparr>Process := Some \<lparr>Pid = pid, state = Alive\<rparr>\<rparr>,
                  pty := Some f\<rparr>, None)))"

text \<open>A call either returns or panics.\<close>

datatype 'a go = Panic | Return 'a

text \<open>
  \<open>(*os.Process).Kill\<close> on a process handle: the kill signal ends a process, which stays
  a zombie until it is waited for; a process already waited for is refused. Only
  \<open>(*exec.Cmd).Wait\<close> reaps.
\<close>

definition Kill :: "Process \<Rightarrow> Process \<times> error option" where
  "Kill p = (if state p = Reaped then (p, Some errFinished) else (p\<lparr>state := Zombie\<rparr>, None))"

definition Wait :: "Process \<Rightarrow> Process" where
  "Wait p = p\<lparr>state := Reaped\<rparr>"

text \<open>
  \<open>func (s *SubProcess) Close() error { return s.command.Process.Kill() }\<close>: \<open>Kill\<close> reads
  the fields of its receiver, so a nil \<open>Process\<close> is a nil pointer dereference.
\<close>

definition Close :: "SubProcess \<Rightarrow> (SubProcess \<times> error option) go" where
  "Close s =
     (case Process (command s) of
        None \<Rightarrow> Panic
      | Some p \<Rightarrow>
          (case Kill p of
             (p', err) \<Rightarrow> Return (s\<lparr>command := (command s)\<lparr>Process := Some p'\<rparr>\<rparr>, err)))"

text \<open>
  \<open>(*os.File).Write\<close>: a nil file answers \<open>os.ErrInvalid\<close> and writes nothing; an open
  one writes all the bytes, or those the operating system takes before it fails. The
  result is the file, the number of bytes written and the error.
\<close>

definition File_Write :: "File option \<Rightarrow> string \<Rightarrow> File option \<times> nat \<times> error option" where
  "File_Write fo b =
     (case fo of
        None \<Rightarrow> (None, 0, Some ErrInvalid)
      | Some f \<Rightarrow>
          (case fault f of
             None \<Rightarrow> (Some (f\<lparr>written := written f @ b\<rparr>), length b, None)
           | Some (n, e) \<Rightarrow>
               (if length b \<le> n
                then (Some (f\<lparr>written := written f @ b, fault := Some (n - length b, e)\<rparr>),
                      length b, None)
                else (Some (f\<lparr>written := written f @ take n b, fault := Some (0, e)\<rparr>),
                      n, Some e))))"

definition Send :: "SubProcess \<Rightarrow> string \<Rightarrow> SubProcess \<times> error option" where
  "Send s v = (case File_Write (pty s) v of (f, n, err) \<Rightarrow> (s\<lparr>pty := f\<rparr>, err))"

text \<open>The two bytes of \<open>"\r\n"\<close>.\<close>

definition CRLF :: string where
  "CRLF = [CHR 0x0D, CHR 0x0A]"

definition SendLine :: "SubProcess \<Rightarrow> string \<Rightarrow> SubProcess \<times> error option" where
  "SendLine s v = Send s (v @ CRLF)"

section \<open>The expect engine\<close>

subsection \<open>Patterns\<close>

text \<open>
  The package \<open>regexp\<close> is not part of the repository. A compiled \<open>*regexp.Regexp\<close> is
  represented by what its matcher computes on a text: the bounds \<open>(lo, hi)\<close> of the
  leftmost match, or \<open>None\<close> when the pattern matches nowhere in the text.
\<close>

type_synonym regexp = "string \<Rightarrow> (nat \<times> nat) option"


text \<open>
  \<open>output.Bytes()\<close> of a \<open>bytes.Buffer\<close>: the nil slice as long as nothing was written (the
  reader writes only when it has read at least one byte), the content afterwards.
\<close>

definition Bytes :: "string \<Rightarrow> string option" where
  "Bytes buf = (if buf = [] then None else Some buf)"

text \<open>
  \<open>(*Regexp).Find\<close>: nil when there is no match, else the slice \<open>b[lo:hi]\<close> of its
  argument. A slice of the nil slice is nil, whatever the bounds.
\<close>

definition Find :: "regexp \<Rightarrow> string option \<Rightarrow> string option" where
  "Find r b =
     (case r (case b of None \<Rightarrow> [] | Some bs \<Rightarrow> bs) of
        None \<Rightarrow> None
      | Some (lo, hi) \<Rightarrow>
          (case b of None \<Rightarrow> None | Some bs \<Rightarrow> Some (take (hi - lo) (drop lo bs))))"

text \<open>
  The pattern that is a literal text \<open>p\<close> without metacharacters, such as \<open>/foo/\<close>: its
  leftmost occurrence, searched from position \<open>k\<close> on. The empty pattern \<open>//\<close> matches
  every text, at its start.
\<close>

fun index_of :: "string \<Rightarrow> string \<Rightarrow> nat \<Rightarrow> (nat \<times> nat) option" where
  "index_of p [] k = (if p = [] then Some (k, k) else None)"
| "index_of p (x # xs) k =
     (if prefix p (x # xs) then Some (k, k + length p) else index_of p xs (Suc k))"

definition literal :: "string \<Rightarrow> regexp" where
  "literal p b = index_of p b 0"

text \<open>
  \<open>for i, r := range expressions { if r.Find(b) != nil { index = i; break OUTER } }\<close>
\<close>

fun first_match :: "regexp list \<Rightarrow> string option \<Rightarrow> nat \<Rightarrow> nat option" where
  "first_match [] b i = None"
| "first_match (r # rs) b i =
     (if Find r b \<noteq> None then Some i else first_match rs b (Suc i))"

subsection \<open>The pty as the reader sees it\<close>

text \<open>
  What the pty answers to the successive \<open>Read\<close> calls of one expect call: some bytes, or
  an error (\<open>io.EOF\<close> at the end of the stream). When the list is used up the next \<open>Read\<close>
  blocks for good: the child is alive and writes nothing more.
\<close>

datatype rd = Read_ok string | Read_err error

text \<open>
  \<open>io.Copy(&temp, s.pty)\<close> reads until the end of the stream or an error, and answers nil
  at the end of the stream, never \<open>io.EOF\<close>. The result is what \<open>temp\<close> holds, the error and
  what the pty has left; \<open>None\<close> when the call never returns.
\<close>

fun io_Copy :: "rd list \<Rightarrow> string \<Rightarrow> (string \<times> error option \<times> rd list) option" where
  "io_Copy [] temp = None"
| "io_Copy (Read_ok bs # rs) temp = io_Copy rs (temp @ bs)"
| "io_Copy (Read_err e # rs) temp =
     (if e = io_EOF then Some (temp, None, rs) else Some (temp, Some e, rs))"

subsection \<open>The two goroutines of an expect call\<close>

text \<open>
  The reader goroutine is at the head of its loop, inside \<open>io.Copy\<close>, or has returned.
\<close>

datatype reader_state = AtSelect | InCopy | Stopped

text \<open>
  The state of one call of \<open>ExpectExpressionsWithTimeout\<close>. Times are nanoseconds since
  the call's \<open>time.Now()\<close>; \<open>deadline\<close> is the timeout, \<open>timer\<close> is when the pending
  \<open>time.After(50 * time.Microsecond)\<close> fires. \<open>errs\<close> is the channel of capacity 1,
  \<open>outbuf\<close> the shared buffer \<open>output\<close>, \<open>result\<close> what the call has returned (and
  \<open>returned_at\<close> when), \<open>printed\<close> the lines written to standard output, \<open>mlog\<close> the
  session's log.
\<close>

record expect =
  pending :: "rd list"
  reader :: reader_state
  outbuf :: string
  errs :: "error option"
  now :: int
  deadline :: int
  timer :: int
  result :: "(int \<times> error option) option"
  returned_at :: int
  printed :: "string list"
  mlog :: logger

text \<open>
  One step of \<open>readOutput\<close>: the \<open>select\<close> at the head of the loop, or the rest of the
  body. Bytes read before an error are dropped with \<open>temp\<close>.
\<close>

definition readOutput_step :: "expect \<Rightarrow> expect" where
  "readOutput_step c =
     (case reader c of
        Stopped \<Rightarrow> c
      | AtSelect \<Rightarrow>
          (if deadline c \<le> now c then c\<lparr>reader := Stopped\<rparr> else c\<lparr>reader := InCopy\<rparr>)
      | InCopy \<Rightarrow>
          (case io_Copy (pending c) [] of
             None \<Rightarrow> c
           | Some (temp, err, rest) \<Rightarrow>
               (if err \<noteq> None \<and> err \<noteq> Some io_EOF
                then c\<lparr>pending := rest, errs := err, reader := Stopped\<rparr>
                else if length temp > 0
                then c\<lparr>pending := rest, reader := AtSelect, outbuf := outbuf c @ temp,
                       printed := printed c @ [''read:  '' @ temp]\<rparr>
                else c\<lparr>pending := rest, reader := AtSelect\<rparr>)))"

text \<open>
  The cases of the \<open>select\<close> in the loop \<open>OUTER\<close>: the deadline of the context, a receive
  from \<open>errs\<close>, and the poll timer, whose body takes the snapshot \<open>b := output.Bytes()\<close>
  of the buffer and tries the patterns in order. A case that is not ready cannot be taken; which of the ready ones
  is taken is the scheduler's choice.
\<close>

datatype sel = SelDone | SelErr | SelTick

definition main_step :: "regexp list \<Rightarrow> sel \<Rightarrow> expect \<Rightarrow> expect" where
  "main_step expressions k c =
     (if result c \<noteq> None then c
      else case k of
        SelDone \<Rightarrow>
          (if deadline c \<le> now c
           then c\<lparr>result := Some (- 1, Some ErrTimeout), returned_at := now c\<rparr>
           else c)
      | SelErr \<Rightarrow>
          (case errs c of
             None \<Rightarrow> c
           | Some err \<Rightarrow>
               c\<lparr>errs := None,
                 mlog := logger_Printf (mlog c) (''error reading from pty: '' @ Error err),
                 result := Some (- 1, errors_Wrap (Some err) ''error reading from pty''),
                 returned_at := now c\<rparr>)
      | SelTick \<Rightarrow>
          (if timer c \<le> now c
           then (case first_match expressions (Bytes (outbuf c)) 0 of
                   Some i \<Rightarrow> c\<lparr>result := Some (int i, None), returned_at := now c\<rparr>
                 | None \<Rightarrow> c\<lparr>timer := now c + 50 * Microsecond\<rparr>)
           else c))"

text \<open>
  What the scheduler and the clock do, one action at a time: time passes, the reader
  goroutine takes a step, or the \<open>select\<close> of the calling goroutine takes a case.
\<close>

datatype action = Elapse nat | Reader | Main sel

fun step :: "regexp list \<Rightarrow> action \<Rightarrow> expect \<Rightarrow> expect" where
  "step expressions (Elapse d) c = c\<lparr>now := now c + int d\<rparr>"
| "step expressions Reader c = readOutput_step c"
| "step expressions (Main k) c = main_step expressions k c"

fun run :: "regexp list \<Rightarrow> action list \<Rightarrow> expect \<Rightarrow> expect" where
  "run expressions [] c = c"
| "run expressions (a # as) c = run expressions as (step expressions a c)"

text \<open>
  A \<open>Read\<close> on the nil file of a session that was not started answers \<open>os.ErrInvalid\<close>.
\<close>

definition pty_reads :: "SubProcess \<Rightarrow> rd list \<Rightarrow> rd list" where
  "pty_reads s rds = (case pty s of None \<Rightarrow> [Read_err ErrInvalid] | Some f \<Rightarrow> rds)"

definition start_expect :: "SubProcess \<Rightarrow> rd list \<Rightarrow> int \<Rightarrow> expect" where
  "start_expect s rds timeout =
     \<lparr>pending = pty_reads s rds, reader = AtSelect, outbuf = [], errs = None, now = 0,
      deadline = timeout, timer = 50 * Microsecond, result = None, returned_at = 0,
      printed = [], mlog = log s\<rparr>"

text \<open>
  The environment of a call: what the pty delivers, and the schedule. The call's value is
  \<open>None\<close> when it has not returned by the end of the schedule.
\<close>

record env =
  reads :: "rd list"
  schedule :: "action list"

definition ExpectExpressionsWithTimeout ::
    "env \<Rightarrow> SubProcess \<Rightarrow> regexp list \<Rightarrow> int \<Rightarrow> SubProcess \<times> (int \<times> error option) option" where
  "ExpectExpressionsWithTimeout e s expressions timeout =
     (let c = run expressions (schedule e) (start_expect s (reads e) timeout)
      in (s\<lparr>log := mlog c\<rparr>, result c))"

definition ExpectWithTimeout ::
    "env \<Rightarrow> SubProcess \<Rightarrow> regexp \<Rightarrow> int \<Rightarrow> SubProcess \<times> (bool \<times> error option) option" where
  "ExpectWithTimeout e s expression duration =
     (case ExpectExpressionsWithTimeout e s [expression] duration of
        (s', None) \<Rightarrow> (s', None)
      | (s', Some (index, err)) \<Rightarrow> (s', Some (index = 0, err)))"

definition Expect ::
    "env \<Rightarrow> SubProcess \<Rightarrow> regexp \<Rightarrow> SubProcess \<times> (bool \<times> error option) option" where
  "Expect e s expression = ExpectWithTimeout e s expression DefaultTimeout"

definition ExpectExpressions ::
    "env \<Rightarrow> SubProcess \<Rightarrow> regexp list \<Rightarrow> SubProcess \<times> (int \<times> error option) option" where
  "ExpectExpressions e s expressions = ExpectExpressionsWithTimeout e s expressions DefaultTimeout"

section \<open>Interact\<close>

text \<open>
  \<open>Interact\<close> starts four goroutines under one cancellable context and one wait group:
  \<open>listenForShutdown\<close>, \<open>waitForCommandCompletion\<close> and two \<open>copyFrom\<close>, and waits for the
  four. \<open>waitForCommandCompletion\<close> starts one more goroutine, which calls \<open>cmd.Wait()\<close>,
  and every turn of the loop of a \<open>copyFrom\<close> starts one more, which calls \<open>io.Copy\<close>.
  None of these is waited for.

  A run of \<open>Interact\<close> is a sequence of events, each one step of one goroutine, in the
  order in which they take effect. An event that cannot happen in a state leaves it as
  it is. \<open>os.Interrupt\<close> is \<open>syscall.SIGINT\<close>; a \<open>SIGWINCH\<close> comes with the result of
  \<open>pty.InheritSize\<close>. What the child and the files answer comes with the events: on a
  session that was not started, \<open>cmd.Wait()\<close> and the copies from the pty return an error
  at once.
\<close>

datatype signal = SIGWINCH | SIGINT | SIGTSTP

datatype direction = PtyToStdout | StdinToPty

datatype event =
    WaitReturns "error option"
      \<comment> \<open>\<open>cmd.Wait()\<close> returns in the goroutine of \<open>waitForCommandCompletion\<close>\<close>
  | CopyFromTurn direction
      \<comment> \<open>a turn of the loop of a \<open>copyFrom\<close>: it returns, or starts an \<open>io.Copy\<close>\<close>
  | CopyMoves direction string
      \<comment> \<open>an \<open>io.Copy\<close> in flight reads bytes from its source and writes them\<close>
  | CopyEnds direction
      \<comment> \<open>an \<open>io.Copy\<close> in flight meets the end of its source and returns nil\<close>
  | CopyFails direction error
      \<comment> \<open>an \<open>io.Copy\<close> in flight returns an error of its source or of standard output\<close>
  | Receive
      \<comment> \<open>the \<open>select\<close> of \<open>listenForShutdown\<close> takes \<open>e := <-errs\<close>\<close>
  | Signal signal "error option"
      \<comment> \<open>the \<open>select\<close> of \<open>listenForShutdown\<close> takes \<open>sig := <-signals\<close>\<close>
  | WaiterReturns
      \<comment> \<open>the \<open>select\<close> of \<open>waitForCommandCompletion\<close> takes \<open>ctx.Done()\<close> or \<open>done\<close>\<close>

text \<open>
  Which of the four goroutines still run; whether the context is cancelled, \<open>cmd.Wait()\<close>
  has returned and \<open>done\<close> is closed; the goroutines blocked in a send on the unbuffered
  channel \<open>errs\<close>, in the order of their arrival, each with its error and whether it is
  the one of \<open>cmd.Wait()\<close>; how many \<open>io.Copy\<close> are in flight in each direction; the lines
  written through the standard logger of the package \<open>log\<close>; the bytes copied to standard
  output; and the pty.
\<close>

record relay =
  listener :: bool
  waiter :: bool
  copy_out :: bool
  copy_in :: bool
  cancelled :: bool
  exited :: bool
  done_closed :: bool
  senders :: "(bool \<times> error) list"
  flying_out :: nat
  flying_in :: nat
  stdlog :: "string list"
  relayed :: string
  ptyf :: "File option"

definition start_relay :: "SubProcess \<Rightarrow> relay" where
  "start_relay s =
     \<lparr>listener = True, waiter = True, copy_out = True, copy_in = True, cancelled = False,
      exited = False, done_closed = False, senders = [], flying_out = 0, flying_in = 0,
      stdlog = [], relayed = [], ptyf = pty s\<rparr>"

text \<open>
  \<open>listenForShutdown\<close>, \<open>case e := <-errs\<close>: the first of the blocked senders hands over
  its error; the listener logs, cancels and returns. The sender goes on: the goroutine of
  \<open>cmd.Wait()\<close> closes \<open>done\<close>. With no sender the case is not ready.
\<close>

definition listenForShutdown_errs :: "relay \<Rightarrow> relay" where
  "listenForShutdown_errs r =
     (case senders r of
        [] \<Rightarrow> r
      | (w, e) # rest \<Rightarrow>
          r\<lparr>senders := rest, done_closed := (done_closed r \<or> w),
            stdlog := stdlog r @ [''failed with error: '' @ Error e],
            cancelled := True, listener := False\<rparr>)"

text \<open>
  \<open>listenForShutdown\<close>, \<open>case sig := <-signals\<close>: a window change resizes the pty, and
  a failure of that is logged and goes no further; an interrupt or a stop cancels and
  returns.
\<close>

definition listenForShutdown_signal :: "signal \<Rightarrow> error option \<Rightarrow> relay \<Rightarrow> relay" where
  "listenForShutdown_signal sig res r =
     (case sig of
        SIGWINCH \<Rightarrow>
          (case res of
             None \<Rightarrow> r
           | Some e \<Rightarrow> r\<lparr>stdlog := stdlog r @ [''error resizing pty: '' @ Error e]\<rparr>)
      | SIGINT \<Rightarrow> r\<lparr>cancelled := True, listener := False\<rparr>
      | SIGTSTP \<Rightarrow> r\<lparr>cancelled := True, listener := False\<rparr>)"

text \<open>
  The goroutine of \<open>waitForCommandCompletion\<close>, when \<open>cmd.Wait()\<close> returns \<open>err\<close>: with an
  error it blocks in \<open>errs <- err\<close> and closes \<open>done\<close> only after that; a clean exit closes
  \<open>done\<close> and does nothing else.
\<close>

definition waitForCommandCompletion :: "error option \<Rightarrow> relay \<Rightarrow> relay" where
  "waitForCommandCompletion err r =
     (if exited r then r
      else case err of
        None \<Rightarrow> r\<lparr>exited := True, done_closed := True\<rparr>
      | Some e \<Rightarrow> r\<lparr>exited := True, senders := senders r @ [(True, e)]\<rparr>)"

text \<open>The \<open>io.Copy\<close> in flight in a direction.\<close>

definition flying :: "direction \<Rightarrow> relay \<Rightarrow> nat" where
  "flying d r = (case d of PtyToStdout \<Rightarrow> flying_out r | StdinToPty \<Rightarrow> flying_in r)"

definition land :: "direction \<Rightarrow> relay \<Rightarrow> relay" where
  "land d r =
     (case d of
        PtyToStdout \<Rightarrow> r\<lparr>flying_out := flying_out r - 1\<rparr>
      | StdinToPty \<Rightarrow> r\<lparr>flying_in := flying_in r - 1\<rparr>)"

text \<open>
  The goroutine started by \<open>copyFrom\<close>, when its \<open>io.Copy\<close> has returned the error \<open>e\<close>: it
  logs (with the same text for both directions) and blocks in \<open>errs <- err\<close>.
\<close>

definition copy_failed :: "direction \<Rightarrow> error \<Rightarrow> relay \<Rightarrow> relay" where
  "copy_failed d e r =
     (land d r)\<lparr>stdlog := stdlog r @ [''unable to copy pty to stdout: '' @ Error e],
               senders := senders r @ [(False, e)]\<rparr>"

text \<open>
  \<open>copyFrom\<close>, one turn of its loop: with the context cancelled the \<open>select\<close> takes
  \<open>ctx.Done()\<close> and it returns, otherwise it takes \<open>default\<close> and starts a goroutine with
  \<open>io.Copy(dst, src)\<close>.
\<close>

definition copyFrom :: "direction \<Rightarrow> relay \<Rightarrow> relay" where
  "copyFrom d r =
     (case d of
        PtyToStdout \<Rightarrow>
          (if \<not> copy_out r then r
           else if cancelled r then r\<lparr>copy_out := False\<rparr>
           else r\<lparr>flying_out := flying_out r + 1\<rparr>)
      | StdinToPty \<Rightarrow>
          (if \<not> copy_in r then r
           else if cancelled r then r\<lparr>copy_in := False\<rparr>
           else r\<lparr>flying_in := flying_in r + 1\<rparr>))"

text \<open>
  An \<open>io.Copy\<close> in flight moves bytes: from the pty to standard output, or from standard
  input to the pty, where a write that fails ends the copy with that error.
\<close>

definition copy_moves :: "direction \<Rightarrow> string \<Rightarrow> relay \<Rightarrow> relay" where
  "copy_moves d bs r =
     (case d of
        PtyToStdout \<Rightarrow> r\<lparr>relayed := relayed r @ bs\<rparr>
      | StdinToPty \<Rightarrow>
          (case File_Write (ptyf r) bs of
             (f, n, None) \<Rightarrow> r\<lparr>ptyf := f\<rparr>
           | (f, n, Some e) \<Rightarrow> copy_failed StdinToPty e (r\<lparr>ptyf := f\<rparr>)))"

fun relay_step :: "event \<Rightarrow> relay \<Rightarrow> relay" where
  "relay_step (WaitReturns err) r = waitForCommandCompletion err r"
| "relay_step (CopyFromTurn d) r = copyFrom d r"
| "relay_step (CopyMoves d bs) r = (if flying d r > 0 then copy_moves d bs r else r)"
| "relay_step (CopyEnds d) r = (if flying d r > 0 then land d r else r)"
| "relay_step (CopyFails d e) r = (if flying d r > 0 then copy_failed d e r else r)"
| "relay_step Receive r = (if listener r then listenForShutdown_errs r else r)"
| "relay_step (Signal sig res) r =
     (if listener r then listenForShutdown_signal sig res r else r)"
| "relay_step WaiterReturns r =
     (if waiter r \<and> (cancelled r \<or> done_closed r) then r\<lparr>waiter := False\<rparr> else r)"

text \<open>\<open>wg.Wait()\<close> returns when the four goroutines have returned.\<close>

definition all_stopped :: "relay \<Rightarrow> bool" where
  "all_stopped r = (\<not> listener r \<and> \<not> waiter r \<and> \<not> copy_out r \<and> \<not> copy_in r)"

text \<open>
  The events up to the return of \<open>wg.Wait()\<close>; \<open>None\<close> when the events are used up and a
  goroutine of the four still runs: nothing more happens, and \<open>wg.Wait()\<close> never returns.
  What the goroutines that are not waited for do after the return is no part of the call.
\<close>

fun relay_run :: "event list \<Rightarrow> relay \<Rightarrow> relay option" where
  "relay_run [] r = (if all_stopped r then Some r else None)"
| "relay_run (ev # evs) r = (if all_stopped r then Some r else relay_run evs (relay_step ev r))"

text \<open>
  What a call of \<open>Interact\<close> that returns leaves behind: the session, the lines of the
  standard logger, what was written to standard output (the bytes relayed from the pty,
  then the print of the log), whether the goroutine of \<open>waitForCommandCompletion\<close> is
  still inside \<open>cmd.Wait()\<close>, how many goroutines are left blocked in a send on \<open>errs\<close>, and
  the error the call returns.
\<close>

record interaction =
  session :: SubProcess
  logged :: "string list"
  stdout :: string
  in_Wait :: bool
  blocked :: nat
  returned :: "error option"

text \<open>\<open>cmd.Wait()\<close>, where it has returned, has reaped the child.\<close>

definition reap :: "bool \<Rightarrow> SubProcess \<Rightarrow> SubProcess" where
  "reap w s =
     (case Process (command s) of
        Some p \<Rightarrow> (if w then s\<lparr>command := (command s)\<lparr>Process := Some (Wait p)\<rparr>\<rparr> else s)
      | None \<Rightarrow> s)"

text \<open>
  \<open>if len(s.log.log.String()) > 0 { fmt.Println("\nlog: ", s.log.log.String()) }\<close>
\<close>

definition print_log :: "logger \<Rightarrow> string" where
  "print_log l = (if length l > 0 then [CHR 0x0A] @ ''log:  '' @ l @ [CHR 0x0A] else [])"

definition Interact :: "event list \<Rightarrow> SubProcess \<Rightarrow> interaction option" where
  "Interact evs s =
     (case relay_run evs (start_relay s) of
        None \<Rightarrow> None
      | Some r \<Rightarrow>
          Some \<lparr>session = reap (exited r) (s\<lparr>pty := ptyf r\<rparr>),
                logged = stdlog r,
                stdout = relayed r @ print_log (log s),
                in_Wait = (\<not> exited r),
                blocked = length (senders r),
                returned = None\<rparr>)"

section \<open>Notions for the properties\<close>

text \<open>A session whose \<open>Start\<close> succeeded: process 100 on a pty that takes every write.\<close>

definition started :: SubProcess where
  "started = fst (Start (Inr (100, \<lparr>written = [], fault = None\<rparr>)) (NewSubProcess ''child'' []))"

text \<open>The bytes of a list of reads, in order: the output of the child.\<close>

fun stream :: "rd list \<Rightarrow> string" where
  "stream [] = []"
| "stream (Read_ok bs # rs) = bs @ stream rs"
| "stream (Read_err e # rs) = stream rs"

text \<open>
  The shapes the result of a call can have: a position of the list and no error, the
  timeout at or after the deadline, or a wrapped read error.
\<close>

definition well_formed :: "regexp list \<Rightarrow> expect \<Rightarrow> bool" where
  "well_formed ex c =
     (\<forall>i e. result c = Some (i, e) \<longrightarrow>
        (e = None \<and> 0 \<le> i \<and> i < int (length ex))
        \<or> (i = - 1 \<and> e = Some ErrTimeout \<and> deadline c \<le> returned_at c)
        \<or> (i = - 1 \<and> (\<exists>x. e = Some (Wrapped ''error reading from pty'' x))))"

text \<open>
  No read has failed or will fail, the buffer and what the pty still holds make up the
  child's output \<open>whole\<close>, and the call, if it has returned, has timed out at or after the
  deadline.
\<close>

definition quiet :: "string \<Rightarrow> expect \<Rightarrow> bool" where
  "quiet whole c =
     (errs c = None \<and> (\<forall>e. Read_err e \<in> set (pending c) \<longrightarrow> e = io_EOF)
      \<and> outbuf c @ stream (pending c) = whole
      \<and> (\<forall>r. result c = Some r \<longrightarrow> r = (- 1, Some ErrTimeout) \<and> deadline c \<le> returned_at c))"

text \<open>
  The pty holds bytes and no end of stream, the buffer is empty, and the call, if it has
  returned, has timed out.
\<close>

definition starved :: "expect \<Rightarrow> bool" where
  "starved c =
     ((\<forall>r\<in>set (pending c). \<exists>bs. r = Read_ok bs) \<and> errs c = None \<and> outbuf c = []
      \<and> (result c = None \<or> result c = Some (- 1, Some ErrTimeout)))"


text \<open>
  The calls of a session that do not wait for the child, run one after the other; a panic
  ends the run.
\<close>

datatype call = CallClose | CallSend string | CallSendLine string

fun do_call :: "call \<Rightarrow> SubProcess \<Rightarrow> SubProcess go" where
  "do_call CallClose s = (case Close s of Panic \<Rightarrow> Panic | Return (s', e) \<Rightarrow> Return s')"
| "do_call (CallSend v) s = Return (fst (Send s v))"
| "do_call (CallSendLine v) s = Return (fst (SendLine s v))"

fun do_calls :: "call list \<Rightarrow> SubProcess \<Rightarrow> SubProcess go" where
  "do_calls [] s = Return s"
| "do_calls (c # cs) s = (case do_call c s of Panic \<Rightarrow> Panic | Return s' \<Rightarrow> do_calls cs s')"

definition child_state :: "SubProcess go \<Rightarrow> proc_state option" where
  "child_state g = (case g of Panic \<Rightarrow> None | Return s \<Rightarrow> map_option state (Process (command s)))"

text \<open>
  The events that bring no error and no interrupt: a clean exit of the child, a turn of
  a \<open>copyFrom\<close>, bytes copied to standard output, a copy that ends at the end of its
  source, a change of the window, and the attempts of the listener and of the waiter to
  go on.
\<close>

fun harmless :: "event \<Rightarrow> bool" where
  "harmless (WaitReturns err) = (err = None)"
| "harmless (CopyFromTurn d) = True"
| "harmless (CopyMoves d bs) = (d = PtyToStdout)"
| "harmless (CopyEnds d) = True"
| "harmless (CopyFails d e) = False"
| "harmless Receive = True"
| "harmless (Signal sig res) = (sig = SIGWINCH)"
| "harmless WaiterReturns = True"


section \<open>Properties of the expect engine\<close>

subsection \<open>Steps and runs\<close>

lemma readOutput_step_frame [simp]:
  "result (readOutput_step c) = result c"
  "returned_at (readOutput_step c) = returned_at c"
  "deadline (readOutput_step c) = deadline c"
  "now (readOutput_step c) = now c"
  "timer (readOutput_step c) = timer c"
  "mlog (readOutput_step c) = mlog c"
  by (simp_all add: readOutput_step_def split: reader_state.splits option.splits prod.splits)

lemma main_step_frame [simp]:
  "deadline (main_step ex k c) = deadline c"
  "now (main_step ex k c) = now c"
  "outbuf (main_step ex k c) = outbuf c"
  "pending (main_step ex k c) = pending c"
  "reader (main_step ex k c) = reader c"
  by (simp_all add: main_step_def split: sel.splits option.splits)

lemma step_deadline [simp]: "deadline (step ex a c) = deadline c"
  by (cases a) simp_all

lemma run_deadline [simp]: "deadline (run ex sched c) = deadline c"
  by (induction sched arbitrary: c) simp_all

lemma run_append:
  "run expressions (xs @ ys) c = run expressions ys (run expressions xs c)"
  by (induction xs arbitrary: c) auto

text \<open>Once the call has returned, nothing changes its result, its time or the log.\<close>

lemma step_final:
  "result c = Some r \<Longrightarrow>
     result (step ex a c) = Some r \<and> returned_at (step ex a c) = returned_at c
     \<and> mlog (step ex a c) = mlog c"
  by (cases a) (simp_all add: main_step_def)

lemma run_final:
  "result c = Some r \<Longrightarrow>
     result (run ex sched c) = Some r \<and> returned_at (run ex sched c) = returned_at c
     \<and> mlog (run ex sched c) = mlog c"
proof (induction sched arbitrary: c)
  case Nil
  then show ?case by simp
next
  case (Cons a sched)
  from step_final[OF Cons.prems, of ex a] Cons.IH[of "step ex a c"] show ?case by simp
qed

subsection \<open>The loop over the patterns\<close>

lemma Find_nil [simp]: "Find r None = None"
  by (simp add: Find_def split: option.splits)


lemma Find_no_match: "r bs = None \<Longrightarrow> Find r (Bytes bs) = None"
  by (auto simp: Find_def Bytes_def split: option.splits prod.splits)


lemma first_match_none:
  "\<forall>r\<in>set rs. Find r b = None \<Longrightarrow> first_match rs b k = None"
  by (induction rs arbitrary: k) auto

lemma first_match_nil [simp]: "first_match rs None k = None"
  by (simp add: first_match_none)

lemma first_match_bounds:
  "first_match rs b k = Some i \<Longrightarrow> k \<le> i \<and> i < k + length rs"
  by (induction rs arbitrary: k) (fastforce split: if_splits)+

subsection \<open>What \<open>io.Copy\<close> returns\<close>

lemma io_Copy_Some:
  "io_Copy rs t = Some (temp, err, rest) \<Longrightarrow>
     (\<exists>ds. temp = t @ ds \<and> stream rs = ds @ stream rest) \<and> set rest \<subseteq> set rs
     \<and> (\<forall>x. err = Some x \<longrightarrow> x \<noteq> io_EOF \<and> Read_err x \<in> set rs)"
proof (induction rs t rule: io_Copy.induct)
  case (1 temp)
  then show ?case by simp
next
  case (2 bs rs temp)
  then show ?case by fastforce
next
  case (3 e rs temp)
  then show ?case by (auto split: if_splits)
qed

lemma io_Copy_blocks:
  "\<forall>r\<in>set rs. \<exists>bs. r = Read_ok bs \<Longrightarrow> io_Copy rs t = None"
  by (induction rs t rule: io_Copy.induct) auto

subsection \<open>Invariants of a call\<close>

lemma step_well_formed: "well_formed ex c \<Longrightarrow> well_formed ex (step ex a c)"
proof (cases a)
  case (Elapse d)
  assume "well_formed ex c"
  then show ?thesis using Elapse by (simp add: well_formed_def)
next
  case Reader
  assume "well_formed ex c"
  then show ?thesis using Reader by (simp add: well_formed_def)
next
  case (Main k)
  assume wf: "well_formed ex c"
  show ?thesis
  proof (cases "result c")
    case None
    then show ?thesis using Main
      by (cases k)
        (auto simp: well_formed_def main_step_def split: option.splits dest: first_match_bounds)
  next
    case (Some r)
    then show ?thesis using Main wf by (simp add: main_step_def)
  qed
qed

lemma run_well_formed: "well_formed ex c \<Longrightarrow> well_formed ex (run ex sched c)"
  by (induction sched arbitrary: c) (simp_all add: step_well_formed)

lemma start_well_formed: "well_formed ex (start_expect s rds timeout)"
  by (simp add: well_formed_def start_expect_def)

lemma readOutput_step_quiet:
  assumes "quiet whole c"
  shows "quiet whole (readOutput_step c)"
proof (cases "reader c")
  case AtSelect
  with assms show ?thesis by (simp add: quiet_def readOutput_step_def)
next
  case Stopped
  with assms show ?thesis by (simp add: quiet_def readOutput_step_def)
next
  case InCopy
  show ?thesis
  proof (cases "io_Copy (pending c) []")
    case None
    with InCopy assms show ?thesis by (simp add: readOutput_step_def)
  next
    case (Some t)
    then obtain temp err rest where t: "io_Copy (pending c) [] = Some (temp, err, rest)"
      by (cases t) auto
    from io_Copy_Some[OF t] obtain ds where
      ds: "temp = ds" "stream (pending c) = ds @ stream rest" "set rest \<subseteq> set (pending c)"
      and er: "\<forall>x. err = Some x \<longrightarrow> x \<noteq> io_EOF \<and> Read_err x \<in> set (pending c)"
      by auto
    from er assms have "err = None" by (cases err) (auto simp: quiet_def)
    with InCopy t ds assms show ?thesis
      by (auto simp: quiet_def readOutput_step_def)
  qed
qed

lemma main_step_quiet:
  assumes "quiet whole c"
    and "\<forall>b. prefix b whole \<longrightarrow> (\<forall>r\<in>set ex. r b = None)"
  shows "quiet whole (main_step ex k c)"
proof -
  from assms(1) have "prefix (outbuf c) whole" by (auto simp: quiet_def)
  with assms(2) have "\<forall>r\<in>set ex. r (outbuf c) = None" by simp
  then have "\<forall>r\<in>set ex. Find r (Bytes (outbuf c)) = None"
    by (simp add: Find_no_match)
  then have "first_match ex (Bytes (outbuf c)) 0 = None" by (rule first_match_none)
  with assms(1) show ?thesis
    by (cases k) (auto simp: quiet_def main_step_def)
qed

lemma step_quiet:
  "quiet whole c \<Longrightarrow> \<forall>b. prefix b whole \<longrightarrow> (\<forall>r\<in>set ex. r b = None) \<Longrightarrow>
     quiet whole (step ex a c)"
proof (cases a)
  case (Elapse d)
  assume "quiet whole c"
  then show ?thesis using Elapse by (simp add: quiet_def)
next
  case Reader
  assume "quiet whole c"
  then show ?thesis using Reader by (simp add: readOutput_step_quiet)
next
  case (Main k)
  assume "quiet whole c" "\<forall>b. prefix b whole \<longrightarrow> (\<forall>r\<in>set ex. r b = None)"
  then show ?thesis using Main by (simp add: main_step_quiet)
qed

lemma run_quiet:
  "quiet whole c \<Longrightarrow> \<forall>b. prefix b whole \<longrightarrow> (\<forall>r\<in>set ex. r b = None) \<Longrightarrow>
     quiet whole (run ex sched c)"
  by (induction sched arbitrary: c) (simp_all add: step_quiet)

text \<open>The reader never comes back from a pty that delivers bytes and no end.\<close>

lemma step_blocked:
  assumes "\<forall>r\<in>set (pending c). \<exists>bs. r = Read_ok bs" and "errs c = None"
  shows "pending (step ex a c) = pending c \<and> outbuf (step ex a c) = outbuf c
       \<and> errs (step ex a c) = None"
proof (cases a)
  case (Elapse d)
  with assms show ?thesis by simp
next
  case Reader
  have "io_Copy (pending c) [] = None" using assms(1) by (rule io_Copy_blocks)
  with assms Reader show ?thesis
    by (cases "reader c") (simp_all add: readOutput_step_def)
next
  case (Main k)
  with assms show ?thesis by (cases k) (simp_all add: main_step_def split: option.splits)
qed

lemma step_starved:
  assumes "starved c"
  shows "starved (step ex a c)"
proof -
  from assms(1) have p: "\<forall>r\<in>set (pending c). \<exists>bs. r = Read_ok bs" and e: "errs c = None"
    and o: "outbuf c = []" and r: "result c = None \<or> result c = Some (- 1, Some ErrTimeout)"
    by (simp_all add: starved_def)
  from step_blocked[OF p e, of ex a] o
  have frame: "pending (step ex a c) = pending c" "outbuf (step ex a c) = []"
    "errs (step ex a c) = None" by simp_all
  have "result (step ex a c) = None \<or> result (step ex a c) = Some (- 1, Some ErrTimeout)"
  proof (cases a)
    case (Elapse d)
    with r show ?thesis by simp
  next
    case Reader
    with r show ?thesis by simp
  next
    case (Main k)
    with r e o show ?thesis by (cases k) (auto simp: main_step_def Bytes_def)
  qed
  with frame p show ?thesis by (simp add: starved_def)
qed

lemma run_starved:
  "starved c \<Longrightarrow> starved (run ex sched c)"
  by (induction sched arbitrary: c) (simp_all add: step_starved)






subsection \<open>The claims about the expect engine\<close>




text \<open>
  C2. The claim is that the reader hands over the bytes as they arrive, so that
  \<open>Expect(/ready/)\<close> answers \<open>(true, nil)\<close> for a child that prints \<open>ready\<close> and then blocks
  with the pty open. The reader calls \<open>io.Copy\<close>, which returns only at the end of the
  stream or at an error. So for a child that writes whatever bytes and neither closes the
  pty nor makes it fail, the bytes stay in \<open>temp\<close>: whatever the patterns, under every
  schedule the shared buffer is empty, and the call has not returned or has returned
  \<open>(-1, ErrTimeout)\<close>.
\<close>

theorem expect_starved_by_io_Copy:
  assumes "\<forall>r\<in>set rds. \<exists>bs. r = Read_ok bs"
    and "pty s \<noteq> None"
  shows "snd (ExpectExpressionsWithTimeout \<lparr>reads = rds, schedule = sched\<rparr> s expressions T)
           \<in> {None, Some (- 1, Some ErrTimeout)}
       \<and> outbuf (run expressions sched (start_expect s rds T)) = []"
proof -
  let ?c = "start_expect s rds T"
  have "starved ?c"
    using assms(1,2) by (auto simp: starved_def start_expect_def pty_reads_def)
  then have "starved (run expressions sched ?c)" by (rule run_starved)
  then show ?thesis
    by (auto simp: starved_def ExpectExpressionsWithTimeout_def Let_def)
qed

text \<open>
  The child prints \<open>ready\<close> and blocks; the reader runs, 30 seconds pass, the poll timer
  fires on an empty buffer and the deadline ends the call: \<open>Expect(/ready/)\<close> returns
  \<open>(false, ErrTimeout)\<close>.
\<close>

theorem expect_starved_by_io_Copy_witness:
  "snd (Expect \<lparr>reads = [Read_ok ''ready''],
                schedule = [Reader, Reader, Elapse 30000000000, Main SelTick, Main SelDone]\<rparr>
          started (literal ''ready'')) = Some (False, Some ErrTimeout)
   \<and> outbuf (run [literal ''ready'']
               [Reader, Reader, Elapse 30000000000, Main SelTick, Main SelDone]
               (start_expect started [Read_ok ''ready''] DefaultTimeout)) = []"
proof -
  have a: "\<forall>r\<in>set [Read_ok ''ready'']. \<exists>bs. r = Read_ok bs" by simp
  have b: "pty started \<noteq> None" by (simp add: started_def Start_def NewSubProcess_def)
  from expect_starved_by_io_Copy[OF a b,
      where sched = "[Reader, Reader, Elapse 30000000000, Main SelTick, Main SelDone]"
        and T = DefaultTimeout and expressions = "[literal ''ready'']"]
  show ?thesis
    by (simp add: Expect_def ExpectWithTimeout_def ExpectExpressionsWithTimeout_def Let_def
          start_expect_def pty_reads_def started_def Start_def NewSubProcess_def
          readOutput_step_def main_step_def DefaultTimeout_def Second_def Microsecond_def
          Bytes_def)
qed

text \<open>
  C3, as stated, fails: no pattern matches, and the call returns a read error and not the
  timeout, because the pty fails before the deadline.
\<close>

theorem expect_read_error_before_deadline:
  "snd (ExpectExpressionsWithTimeout
          \<lparr>reads = [Read_err (OSError ''input/output error'')],
           schedule = [Reader, Reader, Main SelErr]\<rparr>
          started [literal ''x''] DefaultTimeout)
     = Some (- 1, Some (Wrapped ''error reading from pty'' (OSError ''input/output error'')))
   \<and> literal ''x'' [] = None"
  by (simp add: ExpectExpressionsWithTimeout_def Let_def start_expect_def pty_reads_def
        started_def Start_def NewSubProcess_def readOutput_step_def main_step_def
        DefaultTimeout_def Second_def literal_def)

text \<open>
  C3, amended. When no pattern matches any prefix of what the child writes and no read of
  the pty fails, then under every schedule: if the call has returned, it has returned
  \<open>(-1, ErrTimeout)\<close>, at a time at or after the timeout \<open>T\<close>; and it does return that as
  soon as \<open>T\<close> has elapsed and the \<open>select\<close> takes the case of the deadline. \<open>ErrTimeout\<close> is
  one value, different from every wrapped read error.
\<close>

theorem expect_times_out_at_deadline:
  assumes nomatch:
      "\<forall>b. prefix b (stream (pty_reads s rds)) \<longrightarrow> (\<forall>r\<in>set expressions. r b = None)"
    and noerr: "\<forall>e. Read_err e \<in> set (pty_reads s rds) \<longrightarrow> e = io_EOF"
    and c: "c = run expressions sched (start_expect s rds T)"
  shows "(\<forall>r. result c = Some r \<longrightarrow> r = (- 1, Some ErrTimeout) \<and> T \<le> returned_at c)
       \<and> snd (ExpectExpressionsWithTimeout
                \<lparr>reads = rds, schedule = sched @ [Elapse (nat (T - now c)), Main SelDone]\<rparr>
                s expressions T) = Some (- 1, Some ErrTimeout)
       \<and> Some ErrTimeout \<noteq> errors_Wrap (Some e) msg"
proof -
  have "quiet (stream (pty_reads s rds)) (start_expect s rds T)"
    using noerr by (simp add: quiet_def start_expect_def)
  then have q: "quiet (stream (pty_reads s rds)) c"
    unfolding c using nomatch by (rule run_quiet)
  have d: "deadline c = T" unfolding c by (simp add: start_expect_def)
  from q d have one:
    "\<forall>r. result c = Some r \<longrightarrow> r = (- 1, Some ErrTimeout) \<and> T \<le> returned_at c"
    by (simp add: quiet_def)
  have "result (run expressions [Elapse (nat (T - now c)), Main SelDone] c)
          = Some (- 1, Some ErrTimeout)"
  proof (cases "result c")
    case None
    then show ?thesis using d by (simp add: main_step_def)
  next
    case (Some r)
    with one have "result c = Some (- 1, Some ErrTimeout)" by simp
    then show ?thesis by (rule run_final[THEN conjunct1])
  qed
  then have two: "snd (ExpectExpressionsWithTimeout
                \<lparr>reads = rds, schedule = sched @ [Elapse (nat (T - now c)), Main SelDone]\<rparr>
                s expressions T) = Some (- 1, Some ErrTimeout)"
    unfolding c by (simp add: ExpectExpressionsWithTimeout_def Let_def run_append)
  from one two show ?thesis by simp
qed

text \<open>
  The child writes \<open>abc\<close> and closes the pty, the pattern is \<open>/x/\<close>, the timeout 100
  milliseconds: the call returns the timeout, at 100 milliseconds.
\<close>

theorem expect_times_out_at_deadline_witness:
  "snd (ExpectExpressionsWithTimeout
          \<lparr>reads = [Read_ok ''abc'', Read_err io_EOF],
           schedule = [Reader, Reader, Reader, Elapse 100000000, Main SelTick, Elapse 0,
                       Main SelDone]\<rparr>
          started [literal ''x''] 100000000) = Some (- 1, Some ErrTimeout)
   \<and> 100000000 \<le> returned_at
         (run [literal ''x'']
            [Reader, Reader, Reader, Elapse 100000000, Main SelTick, Elapse 0, Main SelDone]
            (start_expect started [Read_ok ''abc'', Read_err io_EOF] 100000000))"
proof -
  have a: "\<forall>b. prefix b (stream (pty_reads started [Read_ok ''abc'', Read_err io_EOF]))
             \<longrightarrow> (\<forall>r\<in>set [literal ''x'']. r b = None)"
    by (auto simp: pty_reads_def started_def Start_def NewSubProcess_def literal_def
          prefix_def append_eq_Cons_conv Cons_eq_append_conv)
  have b: "\<forall>e. Read_err e \<in> set (pty_reads started [Read_ok ''abc'', Read_err io_EOF])
             \<longrightarrow> e = io_EOF"
    by (simp add: pty_reads_def started_def Start_def NewSubProcess_def)
  show ?thesis
    using expect_times_out_at_deadline[OF a b refl,
        of "[Reader, Reader, Reader, Elapse 100000000, Main SelTick, Elapse 0, Main SelDone]"
          100000000]
    by (simp add: ExpectExpressionsWithTimeout_def Let_def start_expect_def pty_reads_def
          started_def Start_def NewSubProcess_def readOutput_step_def main_step_def
          Microsecond_def literal_def Find_def Bytes_def)
qed




text \<open>
  C9. \<open>ExpectWithTimeout(p, d)\<close> is \<open>ExpectExpressionsWithTimeout([p], d)\<close> with the index
  replaced by whether it is 0, and the same error and the same effect on the session;
  \<open>Expect\<close> and \<open>ExpectExpressions\<close> are the forms with a timeout of 30 seconds
  (30 000 000 000 nanoseconds). The boolean is true exactly when the call on the
  one-element list returns \<open>(0, nil)\<close>, which is exactly when the error is nil.
\<close>

theorem single_pattern_forms_project:
  "snd (ExpectWithTimeout e s p d)
     = map_option (\<lambda>(index, err). (index = 0, err))
         (snd (ExpectExpressionsWithTimeout e s [p] d))
   \<and> fst (ExpectWithTimeout e s p d) = fst (ExpectExpressionsWithTimeout e s [p] d)
   \<and> Expect e s p = ExpectWithTimeout e s p (30 * 1000000000)
   \<and> ExpectExpressions e s ps = ExpectExpressionsWithTimeout e s ps (30 * 1000000000)
   \<and> (\<forall>matched err. snd (ExpectWithTimeout e s p d) = Some (matched, err) \<longrightarrow>
         (matched \<longleftrightarrow> snd (ExpectExpressionsWithTimeout e s [p] d) = Some (0, None))
         \<and> (matched \<longleftrightarrow> err = None))"
proof -
  let ?c = "run [p] (schedule e) (start_expect s (reads e) d)"
  have wf: "well_formed [p] ?c" by (rule run_well_formed[OF start_well_formed])
  have 1: "snd (ExpectWithTimeout e s p d)
     = map_option (\<lambda>(index, err). (index = 0, err))
         (snd (ExpectExpressionsWithTimeout e s [p] d))"
    and 2: "fst (ExpectWithTimeout e s p d) = fst (ExpectExpressionsWithTimeout e s [p] d)"
    by (simp_all add: ExpectWithTimeout_def split: prod.splits option.splits)
  have 3: "Expect e s p = ExpectWithTimeout e s p (30 * 1000000000)"
    and 4: "ExpectExpressions e s ps = ExpectExpressionsWithTimeout e s ps (30 * 1000000000)"
    by (simp_all add: Expect_def ExpectExpressions_def DefaultTimeout_def Second_def)
  have 5: "(matched \<longleftrightarrow> snd (ExpectExpressionsWithTimeout e s [p] d) = Some (0, None))
         \<and> (matched \<longleftrightarrow> err = None)"
    if "snd (ExpectWithTimeout e s p d) = Some (matched, err)" for matched err
  proof -
    from that 1 obtain index where r: "result ?c = Some (index, err)"
      and m: "matched = (index = 0)"
      by (auto simp: ExpectExpressionsWithTimeout_def Let_def)
    from wf r have "(err = None \<and> index = 0) \<or> (index = - 1 \<and> err \<noteq> None)"
      by (auto simp: well_formed_def)
    with r m show ?thesis
      by (auto simp: ExpectExpressionsWithTimeout_def Let_def)
  qed
  from 1 2 3 4 5 show ?thesis by blast
qed

text \<open>
  The child writes \<open>ready\<close> and closes the pty: the call on the list returns \<open>(0, nil)\<close>,
  the call on the pattern \<open>(true, nil)\<close>.
\<close>

theorem single_pattern_forms_project_witness:
  "snd (ExpectWithTimeout
          \<lparr>reads = [Read_ok ''ready'', Read_err io_EOF],
           schedule = [Reader, Reader, Elapse 50000, Main SelTick]\<rparr>
          started (literal ''ready'') 1000000000) = Some (True, None)
   \<and> snd (ExpectExpressionsWithTimeout
          \<lparr>reads = [Read_ok ''ready'', Read_err io_EOF],
           schedule = [Reader, Reader, Elapse 50000, Main SelTick]\<rparr>
          started [literal ''ready''] 1000000000) = Some (0, None)"
proof -
  let ?e = "\<lparr>reads = [Read_ok ''ready'', Read_err io_EOF],
           schedule = [Reader, Reader, Elapse 50000, Main SelTick]\<rparr>"
  have x: "snd (ExpectExpressionsWithTimeout ?e started [literal ''ready''] 1000000000)
             = Some (0, None)"
    by (simp add: ExpectExpressionsWithTimeout_def Let_def start_expect_def pty_reads_def
          started_def Start_def NewSubProcess_def readOutput_step_def main_step_def
          Microsecond_def literal_def Find_def Bytes_def)
  from single_pattern_forms_project[of ?e started "literal ''ready''" 1000000000] x
  show ?thesis by simp
qed

section \<open>Properties of Interact\<close>






lemma relay_step_harmless:
  assumes "listener r" "\<not> cancelled r" "senders r = []" "harmless ev"
  shows "listener (relay_step ev r) \<and> \<not> cancelled (relay_step ev r)
       \<and> senders (relay_step ev r) = []"
proof (cases ev)
  case (WaitReturns err)
  with assms show ?thesis by (simp add: waitForCommandCompletion_def)
next
  case (CopyFromTurn d)
  with assms show ?thesis by (cases d) (simp_all add: copyFrom_def)
next
  case (CopyMoves d bs)
  with assms show ?thesis by (simp add: copy_moves_def)
next
  case (CopyEnds d)
  with assms show ?thesis by (cases d) (simp_all add: land_def)
next
  case (CopyFails d e)
  with assms show ?thesis by simp
next
  case Receive
  with assms show ?thesis by (simp add: listenForShutdown_errs_def)
next
  case (Signal sig res)
  with assms show ?thesis
    by (simp add: listenForShutdown_signal_def split: option.splits)
next
  case WaiterReturns
  with assms show ?thesis by simp
qed

lemma relay_run_harmless:
  "listener r \<Longrightarrow> \<not> cancelled r \<Longrightarrow> senders r = [] \<Longrightarrow> \<forall>ev\<in>set evs. harmless ev \<Longrightarrow>
     relay_run evs r = None"
proof (induction evs arbitrary: r)
  case Nil
  then show ?case by (simp add: all_stopped_def)
next
  case (Cons ev evs)
  from Cons.prems have h: "harmless ev" by simp
  from relay_step_harmless[OF Cons.prems(1,2,3) h] Cons.prems(4)
  have "relay_run evs (relay_step ev r) = None" by (intro Cons.IH) auto
  with Cons.prems(1) show ?case by (simp add: all_stopped_def)
qed

text \<open>
  C5. The claim is that \<open>Interact\<close> returns after a clean exit of the child. On a clean
  exit the goroutine of \<open>waitForCommandCompletion\<close> closes \<open>done\<close>, at which
  \<open>waitForCommandCompletion\<close> returns; nothing is sent to \<open>errs\<close> and nothing cancels the
  context, so \<open>listenForShutdown\<close> and the two \<open>copyFrom\<close> run on. While all that happens
  is a clean exit of the child, changes of the window, bytes copied to standard output
  and copies that end at the end of their source, \<open>wg.Wait()\<close> does not return.
\<close>

theorem Interact_hangs_after_clean_exit:
  assumes "\<forall>ev\<in>set evs. harmless ev"
  shows "Interact evs s = None"
proof -
  have "listener (start_relay s)" "\<not> cancelled (start_relay s)" "senders (start_relay s) = []"
    by (simp_all add: start_relay_def)
  then have "relay_run evs (start_relay s) = None" using assms by (rule relay_run_harmless)
  then show ?thesis by (simp add: Interact_def)
qed

text \<open>
  The child exits with status 0: \<open>Interact\<close> does not return, nor when the waiter returns,
  the window changes and a copy meets the end of the pty's output. An interrupt after
  the exit does end the call.
\<close>

theorem Interact_hangs_after_clean_exit_witness:
  "Interact [WaitReturns None] started = None
   \<and> Interact [CopyFromTurn PtyToStdout, CopyFromTurn StdinToPty, WaitReturns None,
               WaiterReturns, Receive, Signal SIGWINCH None, CopyEnds PtyToStdout] started
       = None
   \<and> Interact [WaitReturns None, WaiterReturns, Signal SIGINT None,
               CopyFromTurn PtyToStdout, CopyFromTurn StdinToPty] started \<noteq> None"
proof -
  have "\<forall>ev\<in>set [WaitReturns None]. harmless ev"
    and "\<forall>ev\<in>set [CopyFromTurn PtyToStdout, CopyFromTurn StdinToPty, WaitReturns None,
               WaiterReturns, Receive, Signal SIGWINCH None, CopyEnds PtyToStdout]. harmless ev"
    by simp_all
  from this[THEN Interact_hangs_after_clean_exit, of started] show ?thesis
    by (simp add: Interact_def start_relay_def all_stopped_def waitForCommandCompletion_def
          listenForShutdown_signal_def copyFrom_def)
qed

section \<open>Properties of the session\<close>

lemma do_call_zombie:
  "map_option state (Process (command s)) = Some Zombie \<Longrightarrow>
     \<exists>s'. do_call c s = Return s' \<and> map_option state (Process (command s')) = Some Zombie"
  by (cases c) (auto simp: Close_def Kill_def Send_def SendLine_def split: prod.splits)

lemma do_calls_zombie:
  "map_option state (Process (command s)) = Some Zombie \<Longrightarrow>
     child_state (do_calls cs s) = Some Zombie"
proof (induction cs arbitrary: s)
  case Nil
  then show ?case by (simp add: child_state_def)
next
  case (Cons c cs)
  from do_call_zombie[OF Cons.prems, of c] obtain s' where
    "do_call c s = Return s'" "map_option state (Process (command s')) = Some Zombie" by blast
  with Cons.IH[of s'] show ?case by simp
qed

text \<open>
  C6. The claim is that the child is reaped after \<open>Close\<close>. \<open>Close\<close> sends the kill signal
  and does not wait: on a session whose child has not been waited for, the child is a
  zombie after \<open>Close\<close>, and it stays one through every further \<open>Close\<close>, \<open>Send\<close> and
  \<open>SendLine\<close>.
\<close>

theorem Close_leaves_a_zombie:
  assumes "Process (command s) = Some p" and "state p \<noteq> Reaped"
  shows "child_state (do_calls (CallClose # cs) s) = Some Zombie"
proof -
  obtain s' where "do_call CallClose s = Return s'"
    "map_option state (Process (command s')) = Some Zombie"
    using assms by (simp add: Close_def Kill_def)
  with do_calls_zombie[of s' cs] show ?thesis by simp
qed

text \<open>
  Start, \<open>Close\<close>, a line sent, \<open>Close\<close> again: the child is a zombie. Only the
  \<open>cmd.Wait()\<close> of \<open>Interact\<close> reaps it, here after a clean exit and an interrupt.
\<close>

theorem Close_leaves_a_zombie_witness:
  "child_state (do_calls [CallClose, CallSendLine ''exit'', CallClose] started) = Some Zombie
   \<and> map_option (\<lambda>r. child_state (Return (session r)))
        (Interact [WaitReturns None, WaiterReturns, Signal SIGINT None,
                   CopyFromTurn PtyToStdout, CopyFromTurn StdinToPty] started)
       = Some (Some Reaped)"
proof -
  have a: "Process (command started) = Some \<lparr>Pid = 100, state = Alive\<rparr>"
    and b: "state \<lparr>Pid = 100, state = Alive\<rparr> \<noteq> Reaped"
    by (simp_all add: started_def Start_def NewSubProcess_def)
  have "map_option (\<lambda>r. child_state (Return (session r)))
        (Interact [WaitReturns None, WaiterReturns, Signal SIGINT None,
                   CopyFromTurn PtyToStdout, CopyFromTurn StdinToPty] started)
       = Some (Some Reaped)"
    by (simp add: Interact_def start_relay_def all_stopped_def waitForCommandCompletion_def
          listenForShutdown_signal_def copyFrom_def reap_def Wait_def child_state_def
          started_def Start_def NewSubProcess_def)
  with Close_leaves_a_zombie[OF a b, of "[CallSendLine ''exit'', CallClose]"]
  show ?thesis by simp
qed

text \<open>
  C7. For every session and every string, \<open>SendLine(v)\<close> is \<open>Send\<close> of \<open>v\<close> followed by
  the bytes 13 and 10: the same bytes reach the pty and the same error comes back, also
  when the pty is nil or the write fails. On a pty that takes the write, the bytes of \<open>v\<close>
  and then carriage return and line feed are appended to what the child reads.
\<close>

theorem SendLine_is_Send_with_CRLF:
  "SendLine s v = Send s (v @ [CHR 0x0D, CHR 0x0A])
   \<and> (\<forall>f. pty s = Some f \<and> fault f = None \<longrightarrow>
         SendLine s v
           = (s\<lparr>pty := Some (f\<lparr>written := written f @ v @ [CHR 0x0D, CHR 0x0A]\<rparr>)\<rparr>, None)
         \<and> Send s v = (s\<lparr>pty := Some (f\<lparr>written := written f @ v\<rparr>)\<rparr>, None))"
  by (simp add: SendLine_def Send_def File_Write_def CRLF_def)

theorem SendLine_is_Send_with_CRLF_witness:
  "SendLine started ''ls'' = Send started [CHR ''l'', CHR ''s'', CHR 0x0D, CHR 0x0A]
   \<and> map_option written (pty (fst (SendLine started ''ls'')))
       = Some [CHR ''l'', CHR ''s'', CHR 0x0D, CHR 0x0A]
   \<and> snd (SendLine started ''ls'') = None"
  using SendLine_is_Send_with_CRLF[of started "''ls''"]
  by (simp add: started_def Start_def NewSubProcess_def SendLine_def Send_def File_Write_def
        CRLF_def)

text \<open>
  C10. On a session that was created and not started, or whose \<open>Start\<close> failed, \<open>Close\<close>
  panics: the field \<open>Process\<close> is nil. \<open>Send\<close> and \<open>SendLine\<close> on the same session return
  the error of the nil file and leave the session as it was.
\<close>

theorem Close_before_Start_panics:
  "Close (NewSubProcess cmd args) = Panic
   \<and> Close (fst (Start (Inl e) (NewSubProcess cmd args))) = Panic
   \<and> Send (NewSubProcess cmd args) v = (NewSubProcess cmd args, Some ErrInvalid)
   \<and> SendLine (NewSubProcess cmd args) v = (NewSubProcess cmd args, Some ErrInvalid)
   \<and> Send (fst (Start (Inl e) (NewSubProcess cmd args))) v
        = (NewSubProcess cmd args, Some ErrInvalid)"
  by (simp add: Close_def Send_def SendLine_def File_Write_def Start_def NewSubProcess_def)

end
